theory Spec2Isabelle
  imports Complex_Main
begin

section \<open>Focus-aware cropping (cut.py)\<close>

text \<open>
  Rectangles are Python 4-tuples \<open>(x, y, w, h)\<close> of integers, sizes are pairs
  \<open>(w, h)\<close>. The source computes the midpoint and the half target with true division
  (\<^verbatim>\<open>/\<close>), which yields a float. Every quantity it divides is an integer and the
  divisor is 2, so the float values are integers or half-integers; below \<open>2 ^ 52\<close>
  in magnitude these are represented exactly, and the arithmetic is modelled in
  \<^typ>\<open>real\<close>. Detector coordinates are 32-bit and image sides fit in 31 bits, so
  the model is exact for every target size below \<open>2 ^ 52\<close> in magnitude.
\<close>

type_synonym rect = "int \<times> int \<times> int \<times> int"
type_synonym size2 = "int \<times> int"

text \<open>Python's \<^verbatim>\<open>int(x)\<close> on a float truncates towards zero.\<close>

definition py_int :: "real \<Rightarrow> int" where
  "py_int x = (if 0 \<le> x then \<lfloor>x\<rfloor> else \<lceil>x\<rceil>)"

text \<open>\<^verbatim>\<open>calculate_crop_region(focus_box, image_size, target_size)\<close>, lines 35-57.\<close>

definition calculate_crop_region :: "rect \<Rightarrow> size2 \<Rightarrow> size2 \<Rightarrow> rect" where
  "calculate_crop_region focus_box image_size target_size =
     (case image_size of (img_w, img_h) \<Rightarrow>
      case target_size of (target_w, target_h) \<Rightarrow>
      case focus_box of (fx, fy, fw, fh) \<Rightarrow>
        let center_x = real_of_int fx + real_of_int fw / 2;
            center_y = real_of_int fy + real_of_int fh / 2;
            start_x = py_int (center_x - real_of_int target_w / 2);
            start_y = py_int (center_y - real_of_int target_h / 2);
            start_x = max 0 (min start_x (img_w - target_w));
            start_y = max 0 (min start_y (img_h - target_h));
            crop_w = min target_w img_w;
            crop_h = min target_h img_h
        in (start_x, start_y, crop_w, crop_h))"

text \<open>
  The centre-crop fallback that \<^verbatim>\<open>process_image\<close> inlines when no focus box was
  found, lines 83-89.
\<close>

definition center_crop :: "size2 \<Rightarrow> size2 \<Rightarrow> rect" where
  "center_crop image_size target_size =
     (case image_size of (img_w, img_h) \<Rightarrow>
        let center_x = real_of_int img_w / 2;
            center_y = real_of_int img_h / 2;
            start_x = py_int (center_x - real_of_int (fst target_size) / 2);
            start_y = py_int (center_y - real_of_int (snd target_size) / 2);
            start_x = max 0 (min start_x (img_w - fst target_size));
            start_y = max 0 (min start_y (img_h - snd target_size))
        in (start_x, start_y, fst target_size, snd target_size))"

text \<open>
  The crop planner: the \<^verbatim>\<open>if focus_box is None ... else ...\<close> of
  \<^verbatim>\<open>process_image\<close>, lines 81-91, which the specification calls \<open>plan_crop\<close>.
\<close>

definition plan_crop :: "rect option \<Rightarrow> size2 \<Rightarrow> size2 \<Rightarrow> rect" where
  "plan_crop focus_box image_size target_size =
     (case focus_box of
        None \<Rightarrow> center_crop image_size target_size
      | Some box \<Rightarrow> calculate_crop_region box image_size target_size)"

text \<open>Reading a rectangle: origin, extent, containment in an image, real midpoint.\<close>

definition origin :: "rect \<Rightarrow> int \<times> int" where
  "origin r = (case r of (x, y, w, h) \<Rightarrow> (x, y))"

definition extent :: "rect \<Rightarrow> int \<times> int" where
  "extent r = (case r of (x, y, w, h) \<Rightarrow> (w, h))"

definition inside :: "rect \<Rightarrow> size2 \<Rightarrow> bool" where
  "inside r image_size =
     (case r of (x, y, w, h) \<Rightarrow>
      case image_size of (img_w, img_h) \<Rightarrow>
        0 \<le> x \<and> 0 \<le> y \<and> x + w \<le> img_w \<and> y + h \<le> img_h)"

definition midpoint :: "rect \<Rightarrow> real \<times> real" where
  "midpoint r =
     (case r of (x, y, w, h) \<Rightarrow>
        (real_of_int x + real_of_int w / 2, real_of_int y + real_of_int h / 2))"

section \<open>Subject detection\<close>

text \<open>
  \<^verbatim>\<open>detectMultiScale\<close> returns an array of 32-bit integers, so the key
  \<^verbatim>\<open>x[2] * x[3]\<close> of line 13 is a product of two int32 scalars: it wraps around in
  two's complement.
\<close>

definition int32_mul :: "int \<Rightarrow> int \<Rightarrow> int" where
  "int32_mul a b = (a * b + 2 ^ 31) mod 2 ^ 32 - 2 ^ 31"

definition face_key :: "rect \<Rightarrow> int" where
  "face_key x = (case x of (fx, fy, fw, fh) \<Rightarrow> int32_mul fw fh)"


text \<open>
  Python's \<^verbatim>\<open>max(xs, key=f)\<close> on a non-empty sequence: it keeps the first element
  whose key no later element exceeds.
\<close>

fun py_max_key :: "('a \<Rightarrow> int) \<Rightarrow> 'a \<Rightarrow> 'a list \<Rightarrow> 'a" where
  "py_max_key key best [] = best"
| "py_max_key key best (x # xs) =
     py_max_key key (if key best < key x then x else best) xs"

section \<open>Images, the library calls and the outside world\<close>

text \<open>
  Pixels are not modelled. A buffer is identified by the file it was decoded from and
  the region of that file's raster it holds; a decoded image holds the whole raster.
  A picture is the result of resampling a buffer to a given size.
\<close>

record image =
  source_file :: string
  off_x :: int
  off_y :: int
  cols :: int
  rows :: int

record picture =
  shown :: image
  pic_w :: int
  pic_h :: int

datatype exn = ValueError string | CvError | OtherError string

datatype message =
    Warning string size2 size2
  | Failure string exn

text \<open>
  What the program gets from its collaborators: \<open>imread\<close> gives the shape
  \<open>(rows, cols)\<close> of the decoded raster or \<open>None\<close>; the cascade classifier and the
  saliency detector of lines 9-11 and 18-26 give their result or raise;
  \<open>makedirs p\<close> stands for \<^verbatim>\<open>os.makedirs(os.path.dirname(p), exist_ok=True)\<close>;
  \<open>imwrite\<close> raises or reports whether it wrote the file; \<open>output_path_of\<close> is the
  path arithmetic of lines 122-124.
\<close>

record env =
  imread :: "string \<Rightarrow> (int \<times> int) option"
  detectMultiScale :: "image \<Rightarrow> exn + rect list"
  detect_saliency :: "image \<Rightarrow> exn + rect option"
  makedirs :: "string \<Rightarrow> exn option"
  imwrite :: "string \<Rightarrow> picture \<Rightarrow> exn + bool"
  output_path_of :: "string \<Rightarrow> string"

text \<open>What the program leaves behind: the files written and the lines printed.\<close>

record world =
  written :: "(string \<times> picture) list"
  printed :: "message list"

definition decoded :: "string \<Rightarrow> int \<Rightarrow> int \<Rightarrow> image" where
  "decoded path img_w img_h =
     \<lparr>source_file = path, off_x = 0, off_y = 0, cols = img_w, rows = img_h\<rparr>"

text \<open>
  A bound of a Python slice over an axis of length \<open>n\<close>: a negative bound counts from
  the end, and every bound is cut to \<open>[0, n]\<close>.
\<close>

definition slice_index :: "int \<Rightarrow> int \<Rightarrow> int" where
  "slice_index n i = (if i < 0 then max (i + n) 0 else min i n)"

text \<open>\<^verbatim>\<open>image[y0:y1, x0:x1]\<close>\<close>

definition slice2 :: "image \<Rightarrow> int \<Rightarrow> int \<Rightarrow> int \<Rightarrow> int \<Rightarrow> image" where
  "slice2 img y0 y1 x0 x1 =
     (let r0 = slice_index (rows img) y0; r1 = slice_index (rows img) y1;
          c0 = slice_index (cols img) x0; c1 = slice_index (cols img) x1
      in img\<lparr>off_x := off_x img + c0, off_y := off_y img + r0,
              cols := max 0 (c1 - c0), rows := max 0 (r1 - r0)\<rparr>)"

text \<open>
  \<^verbatim>\<open>cv2.resize(src, dsize, interpolation=...)\<close>: OpenCV rejects an empty source and
  an empty destination size, and otherwise returns an image of exactly \<open>dsize\<close>.
\<close>

definition cv2_resize :: "image \<Rightarrow> size2 \<Rightarrow> exn + picture" where
  "cv2_resize src dsize =
     (if cols src \<le> 0 \<or> rows src \<le> 0 \<or> fst dsize \<le> 0 \<or> snd dsize \<le> 0
      then Inl CvError
      else Inr \<lparr>shown = src, pic_w = fst dsize, pic_h = snd dsize\<rparr>)"

text \<open>\<^verbatim>\<open>detect_faces(image)\<close>, lines 7-14.\<close>

definition detect_faces :: "env \<Rightarrow> image \<Rightarrow> exn + rect option" where
  "detect_faces e img =
     (case detectMultiScale e img of
        Inl err \<Rightarrow> Inl err
      | Inr faces \<Rightarrow>
          (case faces of
             [] \<Rightarrow> Inr None
           | x # xs \<Rightarrow> Inr (Some (py_max_key face_key x xs))))"

text \<open>\<^verbatim>\<open>get_focus_box(image)\<close>, lines 28-33.\<close>

definition get_focus_box :: "env \<Rightarrow> image \<Rightarrow> exn + rect option" where
  "get_focus_box e img =
     (case detect_faces e img of
        Inl err \<Rightarrow> Inl err
      | Inr (Some face_box) \<Rightarrow> Inr (Some face_box)
      | Inr None \<Rightarrow> detect_saliency e img)"

section \<open>Processing one image and a batch\<close>

text \<open>The two lines that persist a result, lines 75-76 and 97-98.\<close>

definition persist :: "env \<Rightarrow> string \<Rightarrow> picture \<Rightarrow> world \<Rightarrow> (exn + unit) \<times> world" where
  "persist e output_path resized s =
     (case makedirs e output_path of
        Some err \<Rightarrow> (Inl err, s)
      | None \<Rightarrow>
          (case imwrite e output_path resized of
             Inl err \<Rightarrow> (Inl err, s)
           | Inr ok \<Rightarrow>
               (Inr (),
                if ok then s\<lparr>written := written s @ [(output_path, resized)]\<rparr> else s)))"

text \<open>
  The body of the \<^verbatim>\<open>try\<close> of \<^verbatim>\<open>process_image\<close>, lines 63-98: the exception it
  ends with, if any, and the world it leaves.
\<close>

definition process_image_try ::
  "env \<Rightarrow> string \<Rightarrow> string \<Rightarrow> size2 \<Rightarrow> world \<Rightarrow> (exn + unit) \<times> world" where
  "process_image_try e input_path output_path target_size s =
     (case imread e input_path of
        None \<Rightarrow> (Inl (ValueError input_path), s)
      | Some (img_h, img_w) \<Rightarrow>
          (case target_size of (target_w, target_h) \<Rightarrow>
             let img = decoded input_path img_w img_h in
             if img_w < target_w \<or> img_h < target_h then
               let s1 = s\<lparr>printed := printed s @
                            [Warning input_path (img_w, img_h) (target_w, target_h)]\<rparr>
               in (case cv2_resize img target_size of
                     Inl err \<Rightarrow> (Inl err, s1)
                   | Inr resized \<Rightarrow> persist e output_path resized s1)
             else
               (case get_focus_box e img of
                  Inl err \<Rightarrow> (Inl err, s)
                | Inr focus_box \<Rightarrow>
                    (case plan_crop focus_box (img_w, img_h) target_size of
                       (x, y, w, h) \<Rightarrow>
                         let cropped = slice2 img y (y + h) x (x + w) in
                         (case cv2_resize cropped target_size of
                            Inl err \<Rightarrow> (Inl err, s)
                          | Inr resized \<Rightarrow> persist e output_path resized s)))))"

text \<open>
  The value of the variable \<^verbatim>\<open>crop_region\<close> when the body reaches line 93, read
  off lines 63-91: the body raises before it, or returns at line 77 without planning a
  crop (\<open>None\<close>), or plans one.
\<close>

definition planned_crop :: "env \<Rightarrow> string \<Rightarrow> size2 \<Rightarrow> exn + rect option" where
  "planned_crop e input_path target_size =
     (case imread e input_path of
        None \<Rightarrow> Inl (ValueError input_path)
      | Some (img_h, img_w) \<Rightarrow>
          (case target_size of (target_w, target_h) \<Rightarrow>
             let img = decoded input_path img_w img_h in
             if img_w < target_w \<or> img_h < target_h then Inr None
             else
               (case get_focus_box e img of
                  Inl err \<Rightarrow> Inl err
                | Inr focus_box \<Rightarrow>
                    Inr (Some (plan_crop focus_box (img_w, img_h) target_size)))))"

text \<open>
  \<^verbatim>\<open>process_image\<close>, lines 59-105: \<^verbatim>\<open>except Exception\<close> turns whatever the body
  raised into one printed line.
\<close>

definition process_image :: "env \<Rightarrow> string \<Rightarrow> string \<Rightarrow> size2 \<Rightarrow> world \<Rightarrow> world" where
  "process_image e input_path output_path target_size s =
     (case process_image_try e input_path output_path target_size s of
        (Inl err, s') \<Rightarrow> s'\<lparr>printed := printed s' @ [Failure input_path err]\<rparr>
      | (Inr u, s') \<Rightarrow> s')"

text \<open>
  The processing loop of \<^verbatim>\<open>bulk_process\<close>, lines 121-125, over the list
  \<^verbatim>\<open>file_paths\<close> that the directory walk of lines 110-118 collected.
\<close>

fun bulk_process :: "env \<Rightarrow> string list \<Rightarrow> size2 \<Rightarrow> world \<Rightarrow> world" where
  "bulk_process e [] target_size s = s"
| "bulk_process e (input_path # file_paths) target_size s =
     bulk_process e file_paths target_size
       (process_image e input_path (output_path_of e input_path) target_size s)"

text \<open>The failures a world has on its log, and the paths it has written.\<close>

fun failures :: "message list \<Rightarrow> (string \<times> exn) list" where
  "failures [] = []"
| "failures (Warning p a b # ms) = failures ms"
| "failures (Failure p err # ms) = (p, err) # failures ms"

text \<open>
  What processing one file of a batch adds to a world in which nothing has happened yet.
\<close>

definition untouched :: world where
  "untouched = \<lparr>written = [], printed = []\<rparr>"

definition outcome :: "env \<Rightarrow> size2 \<Rightarrow> string \<Rightarrow> world" where
  "outcome e target_size input_path =
     process_image e input_path (output_path_of e input_path) target_size untouched"

text \<open>
  A file is served when, if it decodes at all, its raster is not empty, detection on it
  does not raise, and the directory and the file of its output can be written.
\<close>

definition served :: "env \<Rightarrow> string \<Rightarrow> bool" where
  "served e p =
     (\<forall>img_h img_w. imread e p = Some (img_h, img_w) \<longrightarrow>
        0 < img_h \<and> 0 < img_w
        \<and> (\<exists>focus_box. get_focus_box e (decoded p img_w img_h) = Inr focus_box)
        \<and> makedirs e (output_path_of e p) = None
        \<and> (\<forall>pic. imwrite e (output_path_of e p) pic = Inr True))"

section \<open>The specification's formulas\<close>

text \<open>
  The specification's \<open>clamp(v, lo, hi)\<close> and its crop origin
  \<open>clamp(floor(c - target / 2), 0, size - target)\<close> along one axis.
\<close>

definition spec_clamp :: "int \<Rightarrow> int \<Rightarrow> int \<Rightarrow> int" where
  "spec_clamp v lo hi = (if v < lo then lo else if hi < v then hi else v)"

definition spec_start :: "real \<Rightarrow> int \<Rightarrow> int \<Rightarrow> int" where
  "spec_start c target sz = spec_clamp \<lfloor>c - real_of_int target / 2\<rfloor> 0 (sz - target)"

section \<open>The clamped start coordinate\<close>

lemma start_upper: "t \<le> a \<Longrightarrow> max (0::int) (min s (a - t)) + t \<le> a"
  by (simp add: max_def min_def)

lemma start_fits: "max (0::int) (min s (a - t)) + min t a \<le> a"
  by (simp add: max_def min_def)

lemma clamp_nonpos: "a \<le> 0 \<Longrightarrow> max (0::int) (min a b) = 0"
  by (simp add: max_def min_def)

lemma py_int_clamped:
  "max 0 (min (py_int v) b) = max 0 (min \<lfloor>v\<rfloor> b)"
proof (cases "0 \<le> v")
  case True
  then show ?thesis by (simp add: py_int_def)
next
  case False
  then have neg: "v < 0" by simp
  have fl: "\<lfloor>v\<rfloor> \<le> 0" using neg by (simp add: floor_le_iff)
  have ce: "\<lceil>v\<rceil> \<le> 0" using neg by (simp add: ceiling_le_iff)
  have "py_int v = \<lceil>v\<rceil>" using False by (simp add: py_int_def)
  then show ?thesis
    by (simp only: clamp_nonpos [OF fl] clamp_nonpos [OF ce])
qed

lemma calculate_crop_region_parts:
  "calculate_crop_region (fx, fy, fw, fh) (W, H) (tw, th) =
     (max 0 (min (py_int (real_of_int fx + real_of_int fw / 2 - real_of_int tw / 2)) (W - tw)),
      max 0 (min (py_int (real_of_int fy + real_of_int fh / 2 - real_of_int th / 2)) (H - th)),
      min tw W, min th H)"
  by (simp add: calculate_crop_region_def Let_def)

lemma center_crop_parts:
  "center_crop (W, H) (tw, th) =
     (max 0 (min (py_int (real_of_int W / 2 - real_of_int tw / 2)) (W - tw)),
      max 0 (min (py_int (real_of_int H / 2 - real_of_int th / 2)) (H - th)),
      tw, th)"
  by (simp add: center_crop_def Let_def)

lemma spec_clamp_max_min: "lo \<le> hi \<Longrightarrow> spec_clamp v lo hi = max lo (min v hi)"
  by (simp add: spec_clamp_def max_def min_def)

lemma start_is_spec_start:
  "t \<le> a \<Longrightarrow> max 0 (min (py_int (c - real_of_int t / 2)) (a - t)) = spec_start c t a"
  by (simp add: spec_start_def spec_clamp_max_min py_int_clamped)

lemma start_centred:
  assumes lo: "real_of_int t / 2 \<le> c" and hi: "c \<le> real_of_int a - real_of_int t / 2"
  shows "max 0 (min (py_int (c - real_of_int t / 2)) (a - t)) = \<lfloor>c - real_of_int t / 2\<rfloor>"
proof -
  let ?v = "c - real_of_int t / 2"
  have nonneg: "0 \<le> ?v" using lo by simp
  have "?v \<le> real_of_int (a - t)" using hi by simp
  then have up: "\<lfloor>?v\<rfloor> \<le> a - t" by (simp add: floor_le_iff)
  have low: "0 \<le> \<lfloor>?v\<rfloor>" using nonneg by simp
  show ?thesis using up low nonneg by (simp add: py_int_def max_def min_def)
qed

lemma floor_half_shift:
  "real_of_int \<lfloor>real_of_int x + real_of_int w / 2 - real_of_int t / 2\<rfloor> + real_of_int t / 2
   = real_of_int x + real_of_int w / 2 - (if even (w - t) then 0 else 1 / 2)"
proof (cases "even (w - t)")
  case True
  then obtain k where k: "w - t = 2 * k" by (rule evenE)
  then have w: "w = t + 2 * k" by simp
  have "\<lfloor>real_of_int x + real_of_int w / 2 - real_of_int t / 2\<rfloor> = x + k"
    by (rule floor_unique) (simp_all add: w add_divide_distrib)
  then show ?thesis using True by (simp add: w add_divide_distrib)
next
  case False
  then obtain k where k: "w - t = 2 * k + 1" by (rule oddE)
  then have w: "w = t + 2 * k + 1" by simp
  have "\<lfloor>real_of_int x + real_of_int w / 2 - real_of_int t / 2\<rfloor> = x + k"
    by (rule floor_unique) (simp_all add: w add_divide_distrib)
  then show ?thesis using False by (simp add: w add_divide_distrib)
qed

lemma plan_crop_fits:
  assumes "target_w \<le> W" "target_h \<le> H"
    and "plan_crop subject (W, H) (target_w, target_h) = (x, y, w, h)"
  shows "0 \<le> x \<and> 0 \<le> y \<and> x + w \<le> W \<and> y + h \<le> H \<and> w = target_w \<and> h = target_h"
proof (cases subject)
  case None
  then show ?thesis using assms
    by (auto simp add: plan_crop_def center_crop_parts start_upper)
next
  case (Some box)
  obtain fx fy fw fh where box: "box = (fx, fy, fw, fh)" by (cases box) auto
  show ?thesis using assms
    by (auto simp add: Some box plan_crop_def calculate_crop_region_parts start_upper)
qed

lemma floor_half: "\<lfloor>real_of_int a / 2\<rfloor> = a div 2"
  using floor_divide_of_int_eq [of a 2] by simp

lemma centre_start:
  assumes "t \<le> a"
  shows "spec_start (real_of_int a / 2) t a = (a - t) div 2"
proof -
  have e: "real_of_int a / 2 - real_of_int t / 2 = real_of_int (a - t) / 2"
    by (simp add: diff_divide_distrib)
  have "0 \<le> (a - t) div 2" "(a - t) div 2 \<le> a - t" using assms by simp_all
  then show ?thesis
    unfolding spec_start_def e floor_half by (simp add: spec_clamp_def)
qed

section \<open>Properties of the planner\<close>

text \<open>
  C6. With no subject the planner crops around the geometric centre \<open>(W / 2, H / 2)\<close>
  of the image: when the target fits, its origin is the specification's clamped
  \<open>floor(W / 2 - target_w / 2)\<close>, \<open>floor(H / 2 - target_h / 2)\<close>, which is
  \<open>((W - target_w) div 2, (H - target_h) div 2)\<close>, and its extent is the target. For a
  1000 x 1000 image and a 400 x 300 target the crop has origin (300, 350) and extent
  (400, 300).
\<close>

theorem plan_crop_no_subject:
  assumes "target_w \<le> W" "target_h \<le> H"
  shows "plan_crop None (W, H) (target_w, target_h)
           = (spec_start (real_of_int W / 2) target_w W,
              spec_start (real_of_int H / 2) target_h H, target_w, target_h)
         \<and> origin (plan_crop None (W, H) (target_w, target_h))
           = ((W - target_w) div 2, (H - target_h) div 2)
         \<and> extent (plan_crop None (W, H) (target_w, target_h)) = (target_w, target_h)
         \<and> plan_crop None (1000, 1000) (400, 300) = (300, 350, 400, 300)"
proof -
  have r: "plan_crop None (W, H) (target_w, target_h)
           = (spec_start (real_of_int W / 2) target_w W,
              spec_start (real_of_int H / 2) target_h H, target_w, target_h)"
    using assms by (simp add: plan_crop_def center_crop_parts start_is_spec_start)
  have o: "origin (plan_crop None (W, H) (target_w, target_h))
           = ((W - target_w) div 2, (H - target_h) div 2)"
    unfolding r using assms by (simp add: origin_def centre_start)
  have x: "extent (plan_crop None (W, H) (target_w, target_h)) = (target_w, target_h)"
    unfolding r by (simp add: extent_def)
  have ex: "plan_crop None (1000, 1000) (400, 300) = (300, 350, 400, 300)"
    by (simp add: plan_crop_def center_crop_parts py_int_def)
  show ?thesis using r o x ex by blast
qed

theorem plan_crop_no_subject_witness:
  "plan_crop None (1001, 800) (400, 300) = (300, 250, 400, 300)
   \<and> origin (plan_crop None (1001, 800) (400, 300)) = (300, 250)"
  using plan_crop_no_subject [of 400 1001 300 800]
  by (simp add: origin_def spec_start_def spec_clamp_def)


text \<open>
  C1. When the target fits in the image (\<open>0 < target_w \<le> W\<close>, \<open>0 < target_h \<le> H\<close>),
  the planner's rectangle, for a subject rectangle or none, lies inside the image and has
  exactly the extent \<open>target_w x target_h\<close>.
\<close>

theorem plan_crop_bounds:
  assumes "0 < target_w" "target_w \<le> W" "0 < target_h" "target_h \<le> H"
  shows "inside (plan_crop subject (W, H) (target_w, target_h)) (W, H)
         \<and> extent (plan_crop subject (W, H) (target_w, target_h)) = (target_w, target_h)
         \<and> fst (origin (plan_crop subject (W, H) (target_w, target_h))) < W
         \<and> snd (origin (plan_crop subject (W, H) (target_w, target_h))) < H"
proof -
  obtain x y w h where r: "plan_crop subject (W, H) (target_w, target_h) = (x, y, w, h)"
    by (cases "plan_crop subject (W, H) (target_w, target_h)") auto
  have "0 \<le> x \<and> 0 \<le> y \<and> x + w \<le> W \<and> y + h \<le> H \<and> w = target_w \<and> h = target_h"
    using assms(2,4) r by (rule plan_crop_fits)
  then show ?thesis using assms(1,3) by (simp add: r inside_def extent_def origin_def)
qed

theorem plan_crop_bounds_witness:
  "inside (plan_crop (Some (990, 990, 20, 20)) (1000, 1000) (200, 200)) (1000, 1000)
   \<and> extent (plan_crop (Some (990, 990, 20, 20)) (1000, 1000) (200, 200)) = (200, 200)
   \<and> plan_crop (Some (990, 990, 20, 20)) (1000, 1000) (200, 200) = (800, 800, 200, 200)"
  using plan_crop_bounds [of 200 1000 200 1000 "Some (990, 990, 20, 20)"]
  by (simp add: plan_crop_def calculate_crop_region_parts py_int_def)

text \<open>
  C8. For every focus rectangle, also one that leaves the image, and every image and
  target size, \<open>calculate_crop_region\<close> returns a rectangle with a non-negative origin
  and extent \<open>(min target_w W, min target_h H)\<close> that lies inside the image. No
  assumption on the sizes is needed.
\<close>

theorem calculate_crop_region_inside:
  "fst (origin (calculate_crop_region focus_box (W, H) (target_w, target_h))) \<ge> 0
   \<and> snd (origin (calculate_crop_region focus_box (W, H) (target_w, target_h))) \<ge> 0
   \<and> extent (calculate_crop_region focus_box (W, H) (target_w, target_h))
       = (min target_w W, min target_h H)
   \<and> inside (calculate_crop_region focus_box (W, H) (target_w, target_h)) (W, H)"
proof -
  obtain fx fy fw fh where box: "focus_box = (fx, fy, fw, fh)" by (cases focus_box) auto
  show ?thesis
    by (simp add: box calculate_crop_region_parts origin_def extent_def inside_def start_fits)
qed

text \<open>
  C2. With a subject rectangle and a target that fits, the crop origin is the
  specification's \<open>clamp(floor(c - target / 2), 0, size - target)\<close> on each axis, where
  \<open>c\<close> is the real midpoint of the subject; it is never negative, and a subject centred
  at (5, 5) in a 1000 x 1000 image with a 200 x 200 target gives the origin (0, 0).
  The source truncates towards zero where the specification floors; the two differ only
  below zero, where the clamp returns 0 for both.
\<close>

theorem plan_crop_origin:
  assumes "target_w \<le> W" "target_h \<le> H"
  shows "origin (plan_crop (Some (fx, fy, fw, fh)) (W, H) (target_w, target_h))
           = (spec_start (fst (midpoint (fx, fy, fw, fh))) target_w W,
              spec_start (snd (midpoint (fx, fy, fw, fh))) target_h H)
         \<and> 0 \<le> fst (origin (plan_crop (Some (fx, fy, fw, fh)) (W, H) (target_w, target_h)))
         \<and> 0 \<le> snd (origin (plan_crop (Some (fx, fy, fw, fh)) (W, H) (target_w, target_h)))
         \<and> (midpoint (fx, fy, fw, fh) = (5, 5) \<and> (W, H) = (1000, 1000)
              \<and> (target_w, target_h) = (200, 200)
            \<longrightarrow> origin (plan_crop (Some (fx, fy, fw, fh)) (W, H) (target_w, target_h)) = (0, 0))"
proof -
  let ?r = "plan_crop (Some (fx, fy, fw, fh)) (W, H) (target_w, target_h)"
  have eq: "origin ?r = (spec_start (fst (midpoint (fx, fy, fw, fh))) target_w W,
                         spec_start (snd (midpoint (fx, fy, fw, fh))) target_h H)"
    using assms
    by (simp add: plan_crop_def calculate_crop_region_parts origin_def midpoint_def
        start_is_spec_start)
  have nonneg: "0 \<le> fst (origin ?r) \<and> 0 \<le> snd (origin ?r)"
    by (simp add: plan_crop_def calculate_crop_region_parts origin_def)
  have corner: "origin ?r = (0, 0)"
    if "midpoint (fx, fy, fw, fh) = (5, 5) \<and> (W, H) = (1000, 1000)
        \<and> (target_w, target_h) = (200, 200)"
    using that unfolding eq by (simp add: spec_start_def spec_clamp_def)
  show ?thesis using eq nonneg corner by blast
qed

theorem plan_crop_origin_witness:
  "origin (plan_crop (Some (0, 0, 10, 10)) (1000, 1000) (200, 200)) = (0, 0)
   \<and> midpoint (0, 0, 10, 10) = (5, 5)"
  using plan_crop_origin [of 200 1000 200 1000 0 0 10 10]
  by (simp add: midpoint_def spec_start_def spec_clamp_def)

text \<open>
  C3. The crop's midpoint is not always the subject's: a subject (0, 0, 201, 201) has
  midpoint (100.5, 100.5), at least 100 from every edge of a 1000 x 1000 image, and the
  200 x 200 crop planned for it has midpoint (100, 100).
\<close>

theorem centred_crop_midpoint_counterexample:
  "real_of_int 200 / 2 \<le> fst (midpoint (0, 0, 201, 201))
   \<and> fst (midpoint (0, 0, 201, 201)) \<le> real_of_int 1000 - real_of_int 200 / 2
   \<and> real_of_int 200 / 2 \<le> snd (midpoint (0, 0, 201, 201))
   \<and> snd (midpoint (0, 0, 201, 201)) \<le> real_of_int 1000 - real_of_int 200 / 2
   \<and> midpoint (plan_crop (Some (0, 0, 201, 201)) (1000, 1000) (200, 200)) = (100, 100)
   \<and> midpoint (0, 0, 201, 201) = (201 / 2, 201 / 2)
   \<and> midpoint (plan_crop (Some (0, 0, 201, 201)) (1000, 1000) (200, 200))
       \<noteq> midpoint (0, 0, 201, 201)"
  by (simp add: plan_crop_def calculate_crop_region_parts midpoint_def py_int_def)

text \<open>
  C3, as the code has it. For a subject whose midpoint is at least half the target from
  every edge, the crop's midpoint equals the subject's on an axis where the subject's
  extent and the target have the same parity, and lies exactly half a pixel before it
  where they do not (the origin is an integer, so the start is floored).
\<close>

theorem centred_crop_midpoint:
  assumes "real_of_int target_w / 2 \<le> fst (midpoint (fx, fy, fw, fh))"
    and "fst (midpoint (fx, fy, fw, fh)) \<le> real_of_int W - real_of_int target_w / 2"
    and "real_of_int target_h / 2 \<le> snd (midpoint (fx, fy, fw, fh))"
    and "snd (midpoint (fx, fy, fw, fh)) \<le> real_of_int H - real_of_int target_h / 2"
  shows "fst (midpoint (plan_crop (Some (fx, fy, fw, fh)) (W, H) (target_w, target_h)))
           = fst (midpoint (fx, fy, fw, fh)) - (if even (fw - target_w) then 0 else 1 / 2)
         \<and> snd (midpoint (plan_crop (Some (fx, fy, fw, fh)) (W, H) (target_w, target_h)))
           = snd (midpoint (fx, fy, fw, fh)) - (if even (fh - target_h) then 0 else 1 / 2)"
proof -
  have tw: "target_w \<le> W" and th: "target_h \<le> H"
    using assms by (simp_all add: midpoint_def)
  have sx: "max 0 (min (py_int (real_of_int fx + real_of_int fw / 2 - real_of_int target_w / 2))
                    (W - target_w))
            = \<lfloor>real_of_int fx + real_of_int fw / 2 - real_of_int target_w / 2\<rfloor>"
    using assms(1,2) unfolding midpoint_def prod.case fst_conv by (rule start_centred)
  have sy: "max 0 (min (py_int (real_of_int fy + real_of_int fh / 2 - real_of_int target_h / 2))
                    (H - target_h))
            = \<lfloor>real_of_int fy + real_of_int fh / 2 - real_of_int target_h / 2\<rfloor>"
    using assms(3,4) unfolding midpoint_def prod.case snd_conv by (rule start_centred)
  have r: "plan_crop (Some (fx, fy, fw, fh)) (W, H) (target_w, target_h)
           = (\<lfloor>real_of_int fx + real_of_int fw / 2 - real_of_int target_w / 2\<rfloor>,
              \<lfloor>real_of_int fy + real_of_int fh / 2 - real_of_int target_h / 2\<rfloor>,
              target_w, target_h)"
    unfolding plan_crop_def option.case calculate_crop_region_parts sx sy
    using tw th by simp
  show ?thesis
    unfolding r midpoint_def prod.case fst_conv snd_conv floor_half_shift by simp
qed

theorem centred_crop_midpoint_witness:
  "midpoint (plan_crop (Some (400, 300, 100, 101)) (1000, 1000) (200, 200)) = (450, 350)
   \<and> midpoint (400, 300, 100, 101) = (450, 701 / 2)"
  using centred_crop_midpoint [of 200 400 300 100 101 1000 200 1000]
  by (simp add: midpoint_def prod_eq_iff)

text \<open>
  C10. When the target fits in the image, the centre crop inlined in
  \<open>process_image\<close> is \<open>calculate_crop_region\<close> applied to the rectangle
  \<open>(0, 0, W, H)\<close> of the whole image.
\<close>

theorem center_crop_is_full_image_focus:
  assumes "target_w \<le> W" "target_h \<le> H"
  shows "center_crop (W, H) (target_w, target_h)
         = calculate_crop_region (0, 0, W, H) (W, H) (target_w, target_h)"
  using assms by (simp add: center_crop_parts calculate_crop_region_parts)

theorem center_crop_is_full_image_focus_witness:
  "center_crop (1000, 800) (400, 300) = calculate_crop_region (0, 0, 1000, 800) (1000, 800) (400, 300)
   \<and> center_crop (1000, 800) (400, 300) = (300, 250, 400, 300)"
  using center_crop_is_full_image_focus [of 400 1000 300 800]
  by (simp add: center_crop_parts py_int_def)


section \<open>Choosing the face\<close>






section \<open>One image, and a batch of them\<close>

lemma failures_append: "failures (xs @ ys) = failures xs @ failures ys"
  by (induction xs rule: failures.induct) simp_all

lemma persist_frame:
  "persist e output_path resized s =
     (fst (persist e output_path resized untouched),
      s\<lparr>written := written s @ written (snd (persist e output_path resized untouched)),
        printed := printed s @ printed (snd (persist e output_path resized untouched))\<rparr>)"
  by (simp add: persist_def untouched_def split: option.splits sum.splits)

lemma persist_printed: "printed (snd (persist e output_path resized s)) = printed s"
  by (simp add: persist_def split: option.splits sum.splits)

lemma persist_ok:
  "makedirs e output_path = None \<Longrightarrow> imwrite e output_path resized = Inr True \<Longrightarrow>
   persist e output_path resized s = (Inr (), s\<lparr>written := written s @ [(output_path, resized)]\<rparr>)"
  by (simp add: persist_def)

lemma process_image_try_frame:
  "process_image_try e input_path output_path target_size s =
     (fst (process_image_try e input_path output_path target_size untouched),
      s\<lparr>written := written s
                    @ written (snd (process_image_try e input_path output_path target_size untouched)),
        printed := printed s
                    @ printed (snd (process_image_try e input_path output_path target_size untouched))\<rparr>)"
proof (cases "imread e input_path")
  case None
  then show ?thesis by (simp add: process_image_try_def untouched_def)
next
  case (Some shape)
  obtain img_h img_w where shape: "shape = (img_h, img_w)" by (cases shape) auto
  obtain target_w target_h where t: "target_size = (target_w, target_h)"
    by (cases target_size) auto
  show ?thesis
  proof (cases "img_w < target_w \<or> img_h < target_h")
    case True
    show ?thesis
    proof (cases "cv2_resize (decoded input_path img_w img_h) target_size")
      case (Inl err)
      then show ?thesis using True Some
        by (simp add: process_image_try_def shape t untouched_def)
    next
      case (Inr resized)
      have "persist e output_path resized
              (s\<lparr>printed := printed s @ [Warning input_path (img_w, img_h) (target_w, target_h)]\<rparr>)
            = (fst (persist e output_path resized untouched),
               s\<lparr>written := written s @ written (snd (persist e output_path resized untouched)),
                 printed := printed s @ [Warning input_path (img_w, img_h) (target_w, target_h)]\<rparr>)"
        by (simp add: persist_def untouched_def split: option.splits sum.splits)
      moreover have "persist e output_path resized
              (untouched\<lparr>printed := printed untouched
                  @ [Warning input_path (img_w, img_h) (target_w, target_h)]\<rparr>)
            = (fst (persist e output_path resized untouched),
               untouched\<lparr>written := written (snd (persist e output_path resized untouched)),
                 printed := [Warning input_path (img_w, img_h) (target_w, target_h)]\<rparr>)"
        by (simp add: persist_def untouched_def split: option.splits sum.splits)
      ultimately show ?thesis using True Some Inr
        by (simp add: process_image_try_def shape t)
    qed
  next
    case False
    show ?thesis
    proof (cases "get_focus_box e (decoded input_path img_w img_h)")
      case (Inl err)
      then show ?thesis using False Some
        by (simp add: process_image_try_def shape t untouched_def)
    next
      case (Inr focus_box)
      obtain x y w h where plan:
        "plan_crop focus_box (img_w, img_h) (target_w, target_h) = (x, y, w, h)"
        by (cases "plan_crop focus_box (img_w, img_h) (target_w, target_h)") auto
      show ?thesis
      proof (cases "cv2_resize (slice2 (decoded input_path img_w img_h) y (y + h) x (x + w))
                      target_size")
        case (Inl err)
        then show ?thesis using False Some Inr plan
          by (simp add: process_image_try_def shape t untouched_def)
      next
        case resized: (Inr resized)
        show ?thesis using False Some Inr plan resized
          by (simp add: process_image_try_def shape t persist_frame [of e output_path resized s]
              untouched_def)
      qed
    qed
  qed
qed


lemma process_image_frame:
  "process_image e input_path output_path target_size s =
     s\<lparr>written := written s @ written (process_image e input_path output_path target_size untouched),
       printed := printed s @ printed (process_image e input_path output_path target_size untouched)\<rparr>"
proof -
  obtain r d where d: "process_image_try e input_path output_path target_size untouched = (r, d)"
    by (cases "process_image_try e input_path output_path target_size untouched") auto
  have "process_image_try e input_path output_path target_size s
        = (r, s\<lparr>written := written s @ written d, printed := printed s @ printed d\<rparr>)"
    using process_image_try_frame [of e input_path output_path target_size s] d by simp
  then show ?thesis using d
    by (cases r) (simp_all add: process_image_def)
qed

lemma bulk_process_written:
  "written (bulk_process e files target_size s)
   = written s @ concat (map (\<lambda>p. written (outcome e target_size p)) files)"
proof (induction files arbitrary: s)
  case Nil
  then show ?case by simp
next
  case (Cons p files)
  have "written (process_image e p (output_path_of e p) target_size s)
        = written s @ written (outcome e target_size p)"
    using process_image_frame [of e p "output_path_of e p" target_size s]
    by (simp add: outcome_def)
  then show ?case using Cons.IH by simp
qed

lemma bulk_process_printed:
  "printed (bulk_process e files target_size s)
   = printed s @ concat (map (\<lambda>p. printed (outcome e target_size p)) files)"
proof (induction files arbitrary: s)
  case Nil
  then show ?case by simp
next
  case (Cons p files)
  have "printed (process_image e p (output_path_of e p) target_size s)
        = printed s @ printed (outcome e target_size p)"
    using process_image_frame [of e p "output_path_of e p" target_size s]
    by (simp add: outcome_def)
  then show ?case using Cons.IH by simp
qed

lemma try_no_failure_lines:
  "failures (printed (snd (process_image_try e input_path output_path target_size untouched))) = []"
  by (simp add: process_image_try_def untouched_def Let_def persist_printed
      split: option.splits sum.splits prod.splits)

lemma try_raises_writes_nothing:
  "fst (process_image_try e input_path output_path target_size untouched) = Inl err \<Longrightarrow>
   written (snd (process_image_try e input_path output_path target_size untouched)) = []"
  by (auto simp add: process_image_try_def untouched_def Let_def persist_def
      split: option.splits sum.splits prod.splits if_splits)

lemma raise_is_logged:
  assumes "fst (process_image_try e input_path output_path target_size untouched) = Inl err"
  shows "written (process_image e input_path output_path target_size untouched) = []
         \<and> failures (printed (process_image e input_path output_path target_size untouched))
             = [(input_path, err)]"
proof -
  obtain d where d: "process_image_try e input_path output_path target_size untouched = (Inl err, d)"
    using assms by (cases "process_image_try e input_path output_path target_size untouched") auto
  have w: "written d = []"
    using try_raises_writes_nothing [OF assms] d by simp
  have f: "failures (printed d) = []"
    using try_no_failure_lines [of e input_path output_path target_size] d by simp
  show ?thesis using d w f by (simp add: process_image_def failures_append)
qed

lemma undecodable_outcome:
  "imread e input_path = None \<Longrightarrow>
   process_image e input_path output_path target_size s
   = s\<lparr>printed := printed s @ [Failure input_path (ValueError input_path)]\<rparr>"
  by (simp add: process_image_def process_image_try_def)

lemma slice_index_inside: "0 \<le> i \<Longrightarrow> i \<le> n \<Longrightarrow> slice_index n i = i"
  by (simp add: slice_index_def)

lemma slice2_inside:
  assumes "0 \<le> x" "0 \<le> y" "0 \<le> w" "0 \<le> h" "x + w \<le> cols img" "y + h \<le> rows img"
  shows "slice2 img y (y + h) x (x + w)
         = img\<lparr>off_x := off_x img + x, off_y := off_y img + y, cols := w, rows := h\<rparr>"
proof -
  have "slice_index (cols img) x = x" "slice_index (cols img) (x + w) = x + w"
    "slice_index (rows img) y = y" "slice_index (rows img) (y + h) = y + h"
    using assms by (simp_all add: slice_index_inside)
  then show ?thesis using assms by (simp add: slice2_def)
qed

lemma undersized_try:
  assumes "imread e input_path = Some (img_h, img_w)"
    and "img_w < target_w \<or> img_h < target_h"
  shows "process_image_try e input_path output_path (target_w, target_h) s
         = (case cv2_resize (decoded input_path img_w img_h) (target_w, target_h) of
              Inl err \<Rightarrow> (Inl err, s\<lparr>printed := printed s @
                             [Warning input_path (img_w, img_h) (target_w, target_h)]\<rparr>)
            | Inr resized \<Rightarrow> persist e output_path resized
                 (s\<lparr>printed := printed s @
                             [Warning input_path (img_w, img_h) (target_w, target_h)]\<rparr>))"
  using assms by (simp add: process_image_try_def Let_def)

lemma resize_decoded:
  "0 < img_w \<Longrightarrow> 0 < img_h \<Longrightarrow> 0 < target_w \<Longrightarrow> 0 < target_h \<Longrightarrow>
   cv2_resize (decoded input_path img_w img_h) (target_w, target_h)
   = Inr \<lparr>shown = decoded input_path img_w img_h, pic_w = target_w, pic_h = target_h\<rparr>"
  by (simp add: cv2_resize_def decoded_def)

lemma fitting_try:
  assumes rd: "imread e input_path = Some (img_h, img_w)"
    and fits: "target_w \<le> img_w" "target_h \<le> img_h"
    and pos: "0 < target_w" "0 < target_h"
    and focus: "get_focus_box e (decoded input_path img_w img_h) = Inr focus_box"
    and plan: "plan_crop focus_box (img_w, img_h) (target_w, target_h) = (x, y, w, h)"
  shows "process_image_try e input_path output_path (target_w, target_h) s
         = persist e output_path
             \<lparr>shown = \<lparr>source_file = input_path, off_x = x, off_y = y,
                        cols = target_w, rows = target_h\<rparr>,
              pic_w = target_w, pic_h = target_h\<rparr> s"
proof -
  have p: "0 \<le> x \<and> 0 \<le> y \<and> x + w \<le> img_w \<and> y + h \<le> img_h \<and> w = target_w \<and> h = target_h"
    using fits plan by (rule plan_crop_fits)
  have sl: "slice2 (decoded input_path img_w img_h) y (y + h) x (x + w)
            = \<lparr>source_file = input_path, off_x = x, off_y = y, cols = target_w, rows = target_h\<rparr>"
    using p pos slice2_inside [of x y w h "decoded input_path img_w img_h"]
    by (simp add: decoded_def)
  have rs: "cv2_resize \<lparr>source_file = input_path, off_x = x, off_y = y,
                        cols = target_w, rows = target_h\<rparr> (target_w, target_h)
            = Inr \<lparr>shown = \<lparr>source_file = input_path, off_x = x, off_y = y,
                        cols = target_w, rows = target_h\<rparr>,
                   pic_w = target_w, pic_h = target_h\<rparr>"
    using pos by (simp add: cv2_resize_def)
  have guard: "\<not> (img_w < target_w \<or> img_h < target_h)" using fits by simp
  show ?thesis
    using rd guard focus plan
    by (simp add: process_image_try_def Let_def sl rs)
qed


lemma served_outcome:
  assumes rd: "imread e p = Some (img_h, img_w)"
    and img: "0 < img_h" "0 < img_w"
    and pos: "0 < target_w" "0 < target_h"
    and focus: "get_focus_box e (decoded p img_w img_h) = Inr focus_box"
    and dirs: "makedirs e (output_path_of e p) = None"
    and wr: "\<forall>pic. imwrite e (output_path_of e p) pic = Inr True"
  shows "\<exists>pic. written (outcome e (target_w, target_h) p) = [(output_path_of e p, pic)]
               \<and> pic_w pic = target_w \<and> pic_h pic = target_h
               \<and> failures (printed (outcome e (target_w, target_h) p)) = []"
proof (cases "img_w < target_w \<or> img_h < target_h")
  case True
  let ?pic = "\<lparr>shown = decoded p img_w img_h, pic_w = target_w, pic_h = target_h\<rparr>"
  have "process_image_try e p (output_path_of e p) (target_w, target_h) untouched
        = persist e (output_path_of e p) ?pic
            (untouched\<lparr>printed := printed untouched @
                [Warning p (img_w, img_h) (target_w, target_h)]\<rparr>)"
    using undersized_try [OF rd True] resize_decoded [OF img(2) img(1) pos] by simp
  also have "\<dots> = (Inr (), untouched\<lparr>printed := printed untouched @
                [Warning p (img_w, img_h) (target_w, target_h)]\<rparr>
                \<lparr>written := written (untouched\<lparr>printed := printed untouched @
                [Warning p (img_w, img_h) (target_w, target_h)]\<rparr>) @ [(output_path_of e p, ?pic)]\<rparr>)"
    using dirs wr by (simp add: persist_ok)
  finally have "outcome e (target_w, target_h) p
        = \<lparr>written = [(output_path_of e p, ?pic)],
           printed = [Warning p (img_w, img_h) (target_w, target_h)]\<rparr>"
    by (simp add: outcome_def process_image_def untouched_def)
  then show ?thesis by simp
next
  case False
  then have fits: "target_w \<le> img_w" "target_h \<le> img_h" by simp_all
  obtain x y w h where plan:
    "plan_crop focus_box (img_w, img_h) (target_w, target_h) = (x, y, w, h)"
    by (cases "plan_crop focus_box (img_w, img_h) (target_w, target_h)") auto
  let ?pic = "\<lparr>shown = \<lparr>source_file = p, off_x = x, off_y = y,
                        cols = target_w, rows = target_h\<rparr>,
              pic_w = target_w, pic_h = target_h\<rparr>"
  have "process_image_try e p (output_path_of e p) (target_w, target_h) untouched
        = persist e (output_path_of e p) ?pic untouched"
    using rd fits pos focus plan by (rule fitting_try)
  also have "\<dots> = (Inr (), untouched\<lparr>written := written untouched @ [(output_path_of e p, ?pic)]\<rparr>)"
    using dirs wr by (simp add: persist_ok)
  finally have "outcome e (target_w, target_h) p
        = \<lparr>written = [(output_path_of e p, ?pic)], printed = []\<rparr>"
    by (simp add: outcome_def process_image_def untouched_def)
  then show ?thesis by simp
qed

lemma served_batch:
  assumes pos: "0 < target_w" "0 < target_h"
    and ok: "\<forall>p\<in>set files. served e p"
  shows "map fst (concat (map (\<lambda>p. written (outcome e (target_w, target_h) p)) files))
           = map (output_path_of e) (filter (\<lambda>p. imread e p \<noteq> None) files)
         \<and> failures (concat (map (\<lambda>p. printed (outcome e (target_w, target_h) p)) files))
           = map (\<lambda>p. (p, ValueError p)) (filter (\<lambda>p. imread e p = None) files)
         \<and> (\<forall>pic\<in>snd ` set (concat (map (\<lambda>p. written (outcome e (target_w, target_h) p)) files)).
               pic_w pic = target_w \<and> pic_h pic = target_h)"
  using ok
proof (induction files)
  case Nil
  then show ?case by simp
next
  case (Cons p files)
  have IH: "map fst (concat (map (\<lambda>p. written (outcome e (target_w, target_h) p)) files))
           = map (output_path_of e) (filter (\<lambda>p. imread e p \<noteq> None) files)
         \<and> failures (concat (map (\<lambda>p. printed (outcome e (target_w, target_h) p)) files))
           = map (\<lambda>p. (p, ValueError p)) (filter (\<lambda>p. imread e p = None) files)
         \<and> (\<forall>pic\<in>snd ` set (concat (map (\<lambda>p. written (outcome e (target_w, target_h) p)) files)).
               pic_w pic = target_w \<and> pic_h pic = target_h)"
    using Cons by simp
  show ?case
  proof (cases "imread e p")
    case None
    then have "outcome e (target_w, target_h) p
               = \<lparr>written = [], printed = [Failure p (ValueError p)]\<rparr>"
      by (simp add: outcome_def undecodable_outcome untouched_def)
    then show ?thesis using IH None by (simp add: failures_append)
  next
    case (Some shape)
    obtain img_h img_w where shape: "shape = (img_h, img_w)" by (cases shape) auto
    have sv: "served e p" using Cons.prems by simp
    have rd: "imread e p = Some (img_h, img_w)" using Some shape by simp
    from sv rd obtain focus_box where
      img: "0 < img_h" "0 < img_w"
      and focus: "get_focus_box e (decoded p img_w img_h) = Inr focus_box"
      and dirs: "makedirs e (output_path_of e p) = None"
      and wr: "\<forall>pic. imwrite e (output_path_of e p) pic = Inr True"
      unfolding served_def by blast
    from served_outcome [OF rd img pos focus dirs wr] obtain pic where
      pic: "written (outcome e (target_w, target_h) p) = [(output_path_of e p, pic)]"
        "pic_w pic = target_w" "pic_h pic = target_h"
        "failures (printed (outcome e (target_w, target_h) p)) = []"
      by blast
    show ?thesis using IH Some pic by (simp add: failures_append)
  qed
qed

lemma process_image_try_planned:
  "process_image_try e input_path output_path target_size s =
     (case planned_crop e input_path target_size of
        Inl err \<Rightarrow> (Inl err, s)
      | Inr None \<Rightarrow>
          (case imread e input_path of
             None \<Rightarrow> (Inl (ValueError input_path), s)
           | Some (img_h, img_w) \<Rightarrow>
               let s1 = s\<lparr>printed := printed s @
                            [Warning input_path (img_w, img_h) target_size]\<rparr>
               in (case cv2_resize (decoded input_path img_w img_h) target_size of
                     Inl err \<Rightarrow> (Inl err, s1)
                   | Inr resized \<Rightarrow> persist e output_path resized s1))
      | Inr (Some (x, y, w, h)) \<Rightarrow>
          (case imread e input_path of
             None \<Rightarrow> (Inl (ValueError input_path), s)
           | Some (img_h, img_w) \<Rightarrow>
               (case cv2_resize (slice2 (decoded input_path img_w img_h) y (y + h) x (x + w))
                       target_size of
                  Inl err \<Rightarrow> (Inl err, s)
                | Inr resized \<Rightarrow> persist e output_path resized s)))"
  by (simp add: process_image_try_def planned_crop_def Let_def
      split: option.splits sum.splits prod.splits)

section \<open>Properties of the pipeline\<close>

text \<open>
  What holds of a batch. What it writes and prints is, file after file, what each file
  alone would give, so no file's outcome depends on another's. Whatever the body of
  \<open>process_image\<close> raises for a file is logged once for that file and nothing is
  written for it; an undecodable file gives exactly its one failure line. When the
  target is positive and every decodable file is served, the batch writes one output per
  decodable file and logs one failure per undecodable one: nine outputs and one failure
  for nine valid files and one undecodable file.
\<close>

lemma batch_outcomes:
  "written (bulk_process e files t s)
     = written s @ concat (map (\<lambda>p. written (outcome e t p)) files)
   \<and> printed (bulk_process e files t s)
     = printed s @ concat (map (\<lambda>p. printed (outcome e t p)) files)
   \<and> (\<forall>p err. fst (process_image_try e p (output_path_of e p) t untouched) = Inl err
        \<longrightarrow> written (outcome e t p) = [] \<and> failures (printed (outcome e t p)) = [(p, err)])
   \<and> (\<forall>p. imread e p = None
        \<longrightarrow> outcome e t p = \<lparr>written = [], printed = [Failure p (ValueError p)]\<rparr>)
   \<and> (0 < fst t \<and> 0 < snd t \<and> (\<forall>p\<in>set files. served e p)
        \<longrightarrow> map fst (written (bulk_process e files t s))
              = map fst (written s) @ map (output_path_of e) (filter (\<lambda>p. imread e p \<noteq> None) files)
          \<and> failures (printed (bulk_process e files t s))
              = failures (printed s)
                @ map (\<lambda>p. (p, ValueError p)) (filter (\<lambda>p. imread e p = None) files))"
proof -
  obtain target_w target_h where t: "t = (target_w, target_h)" by (cases t) auto
  have w: "written (bulk_process e files t s)
     = written s @ concat (map (\<lambda>p. written (outcome e t p)) files)"
    by (rule bulk_process_written)
  have pr: "printed (bulk_process e files t s)
     = printed s @ concat (map (\<lambda>p. printed (outcome e t p)) files)"
    by (rule bulk_process_printed)
  have raise: "written (outcome e t p) = [] \<and> failures (printed (outcome e t p)) = [(p, err)]"
    if "fst (process_image_try e p (output_path_of e p) t untouched) = Inl err" for p err
    using raise_is_logged [OF that] by (simp add: outcome_def)
  have undec: "outcome e t p = \<lparr>written = [], printed = [Failure p (ValueError p)]\<rparr>"
    if "imread e p = None" for p
    using that by (simp add: outcome_def undecodable_outcome untouched_def)
  have batch: "map fst (written (bulk_process e files t s))
              = map fst (written s) @ map (output_path_of e) (filter (\<lambda>p. imread e p \<noteq> None) files)
          \<and> failures (printed (bulk_process e files t s))
              = failures (printed s)
                @ map (\<lambda>p. (p, ValueError p)) (filter (\<lambda>p. imread e p = None) files)"
    if h: "0 < fst t \<and> 0 < snd t \<and> (\<forall>p\<in>set files. served e p)"
  proof -
    have pos: "0 < target_w" "0 < target_h" using h t by simp_all
    have ok: "\<forall>p\<in>set files. served e p" using h by simp
    show ?thesis
      using served_batch [OF pos ok] w pr unfolding t by (simp add: failures_append)
  qed
  show ?thesis using w pr raise undec batch by blast
qed


lemma batch_outcomes_example:
  "map fst (written (bulk_process
      \<lparr>imread = (\<lambda>p. if p = ''d.png'' then None else Some (600, 800)),
       detectMultiScale = (\<lambda>i. Inr []), detect_saliency = (\<lambda>i. Inr None),
       makedirs = (\<lambda>p. None), imwrite = (\<lambda>p q. Inr True),
       output_path_of = (\<lambda>p. ''out/'' @ p)\<rparr>
      [''a.jpg'', ''b.jpg'', ''c.jpg'', ''d.png'', ''e.jpg'', ''f.jpg'', ''g.jpg'', ''h.jpg'',
       ''i.jpg'', ''j.jpg'']
      (512, 512) untouched))
   = [''out/a.jpg'', ''out/b.jpg'', ''out/c.jpg'', ''out/e.jpg'', ''out/f.jpg'', ''out/g.jpg'',
      ''out/h.jpg'', ''out/i.jpg'', ''out/j.jpg'']
   \<and> failures (printed (bulk_process
      \<lparr>imread = (\<lambda>p. if p = ''d.png'' then None else Some (600, 800)),
       detectMultiScale = (\<lambda>i. Inr []), detect_saliency = (\<lambda>i. Inr None),
       makedirs = (\<lambda>p. None), imwrite = (\<lambda>p q. Inr True),
       output_path_of = (\<lambda>p. ''out/'' @ p)\<rparr>
      [''a.jpg'', ''b.jpg'', ''c.jpg'', ''d.png'', ''e.jpg'', ''f.jpg'', ''g.jpg'', ''h.jpg'',
       ''i.jpg'', ''j.jpg'']
      (512, 512) untouched))
   = [(''d.png'', ValueError ''d.png'')]"
proof -
  let ?e = "\<lparr>imread = (\<lambda>p. if p = ''d.png'' then None else Some (600, 800)),
       detectMultiScale = (\<lambda>i. Inr []), detect_saliency = (\<lambda>i. Inr None),
       makedirs = (\<lambda>p. None), imwrite = (\<lambda>p q. Inr True),
       output_path_of = (\<lambda>p. ''out/'' @ p)\<rparr>"
  let ?files = "[''a.jpg'', ''b.jpg'', ''c.jpg'', ''d.png'', ''e.jpg'', ''f.jpg'', ''g.jpg'',
       ''h.jpg'', ''i.jpg'', ''j.jpg'']"
  have sv: "served ?e p" for p
    by (simp add: served_def get_focus_box_def detect_faces_def)
  have hyp: "0 < fst (512::int, 512::int) \<and> 0 < snd (512::int, 512::int)
             \<and> (\<forall>p\<in>set ?files. served ?e p)"
    using sv by simp
  have "map fst (written (bulk_process ?e ?files (512, 512) untouched))
          = map fst (written untouched)
            @ map (output_path_of ?e) (filter (\<lambda>p. imread ?e p \<noteq> None) ?files)
        \<and> failures (printed (bulk_process ?e ?files (512, 512) untouched))
          = failures (printed untouched)
            @ map (\<lambda>p. (p, ValueError p)) (filter (\<lambda>p. imread ?e p = None) ?files)"
    using batch_outcomes [of ?e ?files "(512, 512)" untouched] hyp by blast
  then show ?thesis by (simp add: untouched_def)
qed

text \<open>
  C4. For an image smaller than the target in width or in height, \<open>process_image\<close>
  warns, resamples the whole decoded image to the target and persists that, whatever the
  detectors would do (they are not consulted, even if they would raise). With a
  non-empty image, a positive target and a working file system the output is the whole
  image at exactly the target size: 1024 x 1024 for a 300 x 300 image.
\<close>

theorem undersized_image_is_stretched:
  assumes rd: "imread e input_path = Some (img_h, img_w)"
    and small: "img_w < target_w \<or> img_h < target_h"
  shows "process_image_try (e\<lparr>detectMultiScale := faces, detect_saliency := salient\<rparr>)
           input_path output_path (target_w, target_h) s
         = (case cv2_resize (decoded input_path img_w img_h) (target_w, target_h) of
              Inl err \<Rightarrow> (Inl err, s\<lparr>printed := printed s @
                             [Warning input_path (img_w, img_h) (target_w, target_h)]\<rparr>)
            | Inr resized \<Rightarrow> persist e output_path resized
                 (s\<lparr>printed := printed s @
                             [Warning input_path (img_w, img_h) (target_w, target_h)]\<rparr>))
         \<and> (0 < img_w \<and> 0 < img_h \<and> 0 < target_w \<and> 0 < target_h
              \<and> makedirs e output_path = None
              \<and> imwrite e output_path
                   \<lparr>shown = decoded input_path img_w img_h, pic_w = target_w, pic_h = target_h\<rparr>
                 = Inr True
            \<longrightarrow> process_image (e\<lparr>detectMultiScale := faces, detect_saliency := salient\<rparr>)
                  input_path output_path (target_w, target_h) s
                = s\<lparr>written := written s @
                      [(output_path,
                        \<lparr>shown = decoded input_path img_w img_h,
                         pic_w = target_w, pic_h = target_h\<rparr>)],
                    printed := printed s @
                      [Warning input_path (img_w, img_h) (target_w, target_h)]\<rparr>)"
proof -
  let ?e = "e\<lparr>detectMultiScale := faces, detect_saliency := salient\<rparr>"
  let ?s1 = "s\<lparr>printed := printed s @ [Warning input_path (img_w, img_h) (target_w, target_h)]\<rparr>"
  let ?pic = "\<lparr>shown = decoded input_path img_w img_h, pic_w = target_w, pic_h = target_h\<rparr>"
  have rd': "imread ?e input_path = Some (img_h, img_w)" using rd by simp
  have same: "persist ?e output_path resized w = persist e output_path resized w" for resized w
    by (simp add: persist_def split: option.splits)
  have body: "process_image_try ?e input_path output_path (target_w, target_h) s
         = (case cv2_resize (decoded input_path img_w img_h) (target_w, target_h) of
              Inl err \<Rightarrow> (Inl err, ?s1)
            | Inr resized \<Rightarrow> persist e output_path resized ?s1)"
    unfolding undersized_try [OF rd' small] same ..
  have saved: "process_image ?e input_path output_path (target_w, target_h) s
                = s\<lparr>written := written s @ [(output_path, ?pic)],
                    printed := printed s @
                      [Warning input_path (img_w, img_h) (target_w, target_h)]\<rparr>"
    if h: "0 < img_w \<and> 0 < img_h \<and> 0 < target_w \<and> 0 < target_h
              \<and> makedirs e output_path = None \<and> imwrite e output_path ?pic = Inr True"
  proof -
    have rs: "cv2_resize (decoded input_path img_w img_h) (target_w, target_h) = Inr ?pic"
      using h by (simp add: resize_decoded)
    have "process_image_try ?e input_path output_path (target_w, target_h) s
          = persist e output_path ?pic ?s1"
      unfolding body rs by simp
    also have "\<dots> = (Inr (), ?s1\<lparr>written := written ?s1 @ [(output_path, ?pic)]\<rparr>)"
      using h by (simp add: persist_ok)
    finally show ?thesis by (simp add: process_image_def)
  qed
  show ?thesis using body saved by blast
qed

theorem undersized_image_is_stretched_witness:
  "process_image
     \<lparr>imread = (\<lambda>p. Some (300, 300)), detectMultiScale = (\<lambda>i. Inl CvError),
      detect_saliency = (\<lambda>i. Inl CvError), makedirs = (\<lambda>p. None),
      imwrite = (\<lambda>p q. Inr True), output_path_of = (\<lambda>p. p)\<rparr>
     ''in/a.png'' ''out/a.png'' (1024, 1024) untouched
   = \<lparr>written = [(''out/a.png'',
                   \<lparr>shown = \<lparr>source_file = ''in/a.png'', off_x = 0, off_y = 0,
                              cols = 300, rows = 300\<rparr>,
                    pic_w = 1024, pic_h = 1024\<rparr>)],
      printed = [Warning ''in/a.png'' (300, 300) (1024, 1024)]\<rparr>"
  using undersized_image_is_stretched
    [of "\<lparr>imread = (\<lambda>p. Some (300, 300)), detectMultiScale = (\<lambda>i. Inr []),
      detect_saliency = (\<lambda>i. Inr None), makedirs = (\<lambda>p. None),
      imwrite = (\<lambda>p q. Inr True), output_path_of = (\<lambda>p. p)\<rparr>"
      "''in/a.png''" 300 300 1024 1024 "\<lambda>i. Inl CvError" "\<lambda>i. Inl CvError"
      "''out/a.png''" untouched]
  by (simp add: untouched_def decoded_def)



text \<open>
  C9. The crop region satisfies the guarantee wherever the program computes one.
  \<open>calculate_crop_region\<close> returns extent \<open>(min target_w W, min target_h H)\<close> inside
  the image for every focus box, image size and target size, larger targets included.
  In \<open>process_image\<close> every crop region that reaches line 93, from a subject or from
  none, has that extent and lies inside the image; for a target larger than the image in
  either dimension the guard of line 71 returns first and no crop region is planned.
\<close>

theorem crop_region_guarantee:
  "extent (calculate_crop_region box (W, H) (target_w, target_h))
     = (min target_w W, min target_h H)
   \<and> inside (calculate_crop_region box (W, H) (target_w, target_h)) (W, H)
   \<and> (imread e input_path = Some (H, W)
        \<and> planned_crop e input_path (target_w, target_h) = Inr (Some r)
      \<longrightarrow> (\<exists>subject. get_focus_box e (decoded input_path W H) = Inr subject
                      \<and> r = plan_crop subject (W, H) (target_w, target_h))
          \<and> extent r = (min target_w W, min target_h H)
          \<and> inside r (W, H))
   \<and> (imread e input_path = Some (H, W) \<and> (W < target_w \<or> H < target_h)
      \<longrightarrow> planned_crop e input_path (target_w, target_h) = Inr None)"
proof -
  obtain fx fy fw fh where box: "box = (fx, fy, fw, fh)" by (cases box) auto
  have callee: "extent (calculate_crop_region box (W, H) (target_w, target_h))
                  = (min target_w W, min target_h H)
                \<and> inside (calculate_crop_region box (W, H) (target_w, target_h)) (W, H)"
    by (simp add: box calculate_crop_region_parts extent_def inside_def start_fits)
  have reached: "(\<exists>subject. get_focus_box e (decoded input_path W H) = Inr subject
                      \<and> r = plan_crop subject (W, H) (target_w, target_h))
          \<and> extent r = (min target_w W, min target_h H)
          \<and> inside r (W, H)"
    if h: "imread e input_path = Some (H, W)
           \<and> planned_crop e input_path (target_w, target_h) = Inr (Some r)"
  proof -
    have fits: "target_w \<le> W" "target_h \<le> H"
      using h by (auto simp add: planned_crop_def Let_def split: if_splits)
    obtain subject where sub: "get_focus_box e (decoded input_path W H) = Inr subject"
      and r: "r = plan_crop subject (W, H) (target_w, target_h)"
      using h by (auto simp add: planned_crop_def Let_def split: if_splits sum.splits)
    obtain x y w h' where xy: "plan_crop subject (W, H) (target_w, target_h) = (x, y, w, h')"
      by (cases "plan_crop subject (W, H) (target_w, target_h)") auto
    have "0 \<le> x \<and> 0 \<le> y \<and> x + w \<le> W \<and> y + h' \<le> H \<and> w = target_w \<and> h' = target_h"
      using fits xy by (rule plan_crop_fits)
    then have "extent r = (min target_w W, min target_h H) \<and> inside r (W, H)"
      using fits by (simp add: r xy extent_def inside_def)
    then show ?thesis using sub r by blast
  qed
  have guarded: "planned_crop e input_path (target_w, target_h) = Inr None"
    if "imread e input_path = Some (H, W) \<and> (W < target_w \<or> H < target_h)"
    using that by (auto simp add: planned_crop_def Let_def)
  show ?thesis using callee reached guarded by blast
qed

theorem crop_region_guarantee_witness:
  "planned_crop
     \<lparr>imread = (\<lambda>p. Some (1000, 1000)), detectMultiScale = (\<lambda>i. Inr []),
      detect_saliency = (\<lambda>i. Inr None), makedirs = (\<lambda>p. None),
      imwrite = (\<lambda>p q. Inr True), output_path_of = (\<lambda>p. p)\<rparr>
     ''a.jpg'' (400, 300) = Inr (Some (300, 350, 400, 300))
   \<and> extent (300, 350, 400, 300) = (min 400 1000, min 300 1000)
   \<and> inside (300, 350, 400, 300) (1000, 1000)
   \<and> planned_crop
     \<lparr>imread = (\<lambda>p. Some (300, 300)), detectMultiScale = (\<lambda>i. Inr []),
      detect_saliency = (\<lambda>i. Inr None), makedirs = (\<lambda>p. None),
      imwrite = (\<lambda>p q. Inr True), output_path_of = (\<lambda>p. p)\<rparr>
     ''a.jpg'' (1024, 1024) = Inr None"
proof -
  let ?e = "\<lparr>imread = (\<lambda>p. Some (1000, 1000)), detectMultiScale = (\<lambda>i. Inr []),
      detect_saliency = (\<lambda>i. Inr None), makedirs = (\<lambda>p. None),
      imwrite = (\<lambda>p q. Inr True), output_path_of = (\<lambda>p. p)\<rparr>"
  let ?small = "\<lparr>imread = (\<lambda>p. Some (300, 300)), detectMultiScale = (\<lambda>i. Inr []),
      detect_saliency = (\<lambda>i. Inr None), makedirs = (\<lambda>p. None),
      imwrite = (\<lambda>p q. Inr True), output_path_of = (\<lambda>p. p)\<rparr>"
  have p: "planned_crop ?e ''a.jpg'' (400, 300) = Inr (Some (300, 350, 400, 300))"
    by (simp add: planned_crop_def get_focus_box_def detect_faces_def plan_crop_def
        center_crop_parts py_int_def)
  have h: "imread ?e ''a.jpg'' = Some (1000, 1000)
           \<and> planned_crop ?e ''a.jpg'' (400, 300) = Inr (Some (300, 350, 400, 300))"
    using p by simp
  have g: "extent (300, 350, 400, 300) = (min 400 1000, min 300 1000)
           \<and> inside (300, 350, 400, 300) (1000, 1000)"
    using crop_region_guarantee
      [of "(0, 0, 1, 1)" 1000 1000 400 300 ?e "''a.jpg''" "(300, 350, 400, 300)"] h
    by blast
  have s: "imread ?small ''a.jpg'' = Some (300, 300) \<and> ((300::int) < 1024 \<or> (300::int) < 1024)"
    by simp
  have n: "planned_crop ?small ''a.jpg'' (1024, 1024) = Inr None"
    using crop_region_guarantee
      [of "(0, 0, 1, 1)" 300 300 1024 1024 ?small "''a.jpg''" "(0, 0, 0, 0)"] s
    by blast
  show ?thesis using p g n by blast
qed

text \<open>
  C5. Not every failure of an image is caught and logged. \<^verbatim>\<open>cv2.imwrite\<close> reports
  a file it could not write by returning \<open>False\<close>, and lines 76 and 98 drop that
  result, where line 64 checks what \<^verbatim>\<open>cv2.imread\<close> returned and raises. In a batch
  of three decodable files where the second cannot be written, the batch writes the
  other two and prints nothing: no output and no failure line for the second file.
\<close>

theorem unreported_write_failure:
  "bulk_process
     \<lparr>imread = (\<lambda>p. Some (600, 800)), detectMultiScale = (\<lambda>i. Inr []),
      detect_saliency = (\<lambda>i. Inr None), makedirs = (\<lambda>p. None),
      imwrite = (\<lambda>p q. Inr (p \<noteq> ''out/b.jpg'')),
      output_path_of = (\<lambda>p. ''out/'' @ p)\<rparr>
     [''a.jpg'', ''b.jpg'', ''c.jpg''] (512, 512) untouched
   = \<lparr>written =
        [(''out/a.jpg'',
          \<lparr>shown = \<lparr>source_file = ''a.jpg'', off_x = 144, off_y = 44, cols = 512, rows = 512\<rparr>,
           pic_w = 512, pic_h = 512\<rparr>),
         (''out/c.jpg'',
          \<lparr>shown = \<lparr>source_file = ''c.jpg'', off_x = 144, off_y = 44, cols = 512, rows = 512\<rparr>,
           pic_w = 512, pic_h = 512\<rparr>)],
      printed = []\<rparr>"
  by (simp add: untouched_def process_image_def process_image_try_def persist_def
      get_focus_box_def detect_faces_def plan_crop_def center_crop_parts py_int_def
      decoded_def slice2_def slice_index_def cv2_resize_def)

end
